theory Spec2Isabelle
  imports Main
begin

section \<open>Data model\<close>

text \<open>
  Artifact payloads are free-form JavaScript objects (\<^verbatim>\<open>items: { type: 'object' }\<close> in the
  input schema, \<^verbatim>\<open>data: any\<close> in \<^verbatim>\<open>LogQueryMatch\<close>).  They are embedded as JSON values; an
  object is the list of its own enumerable properties in insertion order, which is the
  order \<^verbatim>\<open>Object.values\<close> walks.  Strings are 7-bit ASCII texts (\<^typ>\<open>string\<close>).
\<close>

datatype json =
    JNull
  | JBool bool
  | JNum int
  | JStr string
  | JArr "json list"
  | JObj "(string \<times> json) list"

type_synonym artifact = "(string \<times> json) list"

text \<open>The five optional sequences of \<^verbatim>\<open>entry.artifacts\<close>; \<open>None\<close> is an absent property.\<close>

record Artifacts =
  apiEndpoints :: "artifact list option"
  components :: "artifact list option"
  functions' :: "artifact list option"
  classes :: "artifact list option"
  integrations :: "artifact list option"

record Statistics =
  linesAdded :: int
  linesRemoved :: int
  filesChanged :: nat

text \<open>\<^verbatim>\<open>Omit<ImplementationLogEntry, 'id'>\<close>, then the entry with its identifier.\<close>

record LogEntryInput =
  taskId :: string
  timestamp :: string
  summary :: string
  filesModified :: "string list"
  filesCreated :: "string list"
  statistics :: Statistics
  artifacts :: "Artifacts option"

record ImplementationLogEntry = LogEntryInput +
  entry_id :: nat

text \<open>One row of a task document, as far as the handlers read it (\<^verbatim>\<open>t.id\<close>).\<close>

record Task =
  task_id :: string
  task_status :: string
  task_description :: string

record TaskStats =
  entryCount :: nat
  lastTimestamp :: "string option"
  totalLinesAdded :: int
  totalLinesRemoved :: int
  totalFilesChanged :: nat

subsection \<open>The file system the handlers run against\<close>

text \<open>
  Modelled from the spec: \<^verbatim>\<open>PathUtils\<close> (\<^verbatim>\<open>../core/path-utils.js\<close>) is not among the sources.
  Sections 2 and 3: given a project root, a specification name and an archived/active flag
  it returns the directory of that specification, and active and archived specifications
  live in disjoint roots.  A specification directory is therefore identified here by its
  archived flag and its name, under one project root.
  \<^item> \<open>tasksFile w name\<close> is what \<^verbatim>\<open>fs.readFile(`${specPath}/tasks.md`)\<close> does for the active
    specification \<open>name\<close>: \<open>Inl msg\<close> when it throws, \<open>Inr text\<close> otherwise;
  \<^item> \<open>logFile w archived name\<close> is the backing store of that specification's log collection;
  \<^item> \<open>specDir w archived\<close> is what \<^verbatim>\<open>fs.readdir\<close> does on the active or archived root;
  \<^item> \<open>accessible w archived name\<close> tells whether \<^verbatim>\<open>fs.access\<close> of the directory succeeds.
\<close>

datatype LogFile = Missing | Unreadable string | Stored "ImplementationLogEntry list"

datatype DirListing = ENOENT | ReadError string | Entries "(string \<times> bool) list"

record World =
  tasksFile :: "string \<Rightarrow> string + string"
  logFile :: "bool \<Rightarrow> string \<Rightarrow> LogFile"
  specDir :: "bool \<Rightarrow> DirListing"
  accessible :: "bool \<Rightarrow> string \<Rightarrow> bool"

text \<open>
  \<^verbatim>\<open>ToolResponse\<close>: \<^verbatim>\<open>success\<close>, \<^verbatim>\<open>message\<close> and the optional \<^verbatim>\<open>data\<close>.  The \<^verbatim>\<open>nextSteps\<close>
  hints and the \<^verbatim>\<open>projectContext\<close> echo are constant texts that no handler branches on;
  they are left out.
\<close>

record 'd ToolResponse =
  success :: bool
  message :: string
  data :: "'d option"

definition failure :: "string \<Rightarrow> 'd ToolResponse" where
  "failure msg = \<lparr>success = False, message = msg, data = None\<rparr>"

section \<open>Implementation log store\<close>

text \<open>
  Modelled from the spec: \<^verbatim>\<open>ImplementationLogManager\<close> (\<^verbatim>\<open>getAllLogs\<close>, \<^verbatim>\<open>addLogEntry\<close>,
  \<^verbatim>\<open>getTaskStats\<close>) is imported from \<^verbatim>\<open>../dashboard/implementation-log-manager.js\<close>, which is
  not among the sources.  Section 4.2: \<^verbatim>\<open>getAllLogs\<close> returns the entries in append order
  and an empty sequence on a missing backing store; the store raises for an I/O failure
  on the read it was asked to perform (section 7).
\<close>

definition getAllLogs :: "World \<Rightarrow> bool \<Rightarrow> string \<Rightarrow> string + ImplementationLogEntry list" where
  "getAllLogs w archived name =
     (case logFile w archived name of
        Missing \<Rightarrow> Inr []
      | Unreadable err \<Rightarrow> Inl err
      | Stored es \<Rightarrow> Inr es)"

text \<open>
  Modelled from the spec: the identifier generator of the absent \<^verbatim>\<open>addLogEntry\<close>
  (``a fresh unique identifier (monotonic or random)''); the monotonic choice is taken.
\<close>

definition freshId :: "ImplementationLogEntry list \<Rightarrow> nat" where
  "freshId es = Suc (foldr max (map entry_id es) 0)"

text \<open>
  Modelled from the spec: the absent \<^verbatim>\<open>addLogEntry\<close>.  It ``assigns a fresh unique
  identifier, stamps timestamp if absent, computes filesChanged'' and persists the enlarged
  collection by writing a complete replacement.  The timestamp is a mandatory field of
  \<^verbatim>\<open>Omit<ImplementationLogEntry, 'id'>\<close>, so there is nothing to stamp.
\<close>

definition addLogEntry ::
  "World \<Rightarrow> bool \<Rightarrow> string \<Rightarrow> LogEntryInput \<Rightarrow> string + (ImplementationLogEntry \<times> World)" where
  "addLogEntry w archived name e =
     (case getAllLogs w archived name of
        Inl err \<Rightarrow> Inl err
      | Inr es \<Rightarrow>
          let created = \<lparr>taskId = taskId e, timestamp = timestamp e, summary = summary e,
                         filesModified = filesModified e, filesCreated = filesCreated e,
                         statistics = (statistics e)\<lparr>filesChanged :=
                           length (filesModified e) + length (filesCreated e)\<rparr>,
                         artifacts = artifacts e, entry_id = freshId es\<rparr>
          in Inr (created,
                  w\<lparr>logFile := (\<lambda>a n. if a = archived \<and> n = name then Stored (es @ [created])
                                       else logFile w a n)\<rparr>))"

text \<open>
  Modelled from the spec: the absent \<^verbatim>\<open>getTaskStats\<close>, which ``filters the full collection to
  entries matching taskId'' and reduces them to the rollup of section 3 (zero-valued when
  there is none).
\<close>

definition getTaskStats :: "World \<Rightarrow> bool \<Rightarrow> string \<Rightarrow> string \<Rightarrow> string + TaskStats" where
  "getTaskStats w archived name tid =
     (case getAllLogs w archived name of
        Inl err \<Rightarrow> Inl err
      | Inr es \<Rightarrow>
          let mine = filter (\<lambda>e. taskId e = tid) es
          in Inr \<lparr>entryCount = length mine,
                  lastTimestamp = (if mine = [] then None else Some (timestamp (last mine))),
                  totalLinesAdded = sum_list (map (\<lambda>e. linesAdded (statistics e)) mine),
                  totalLinesRemoved = sum_list (map (\<lambda>e. linesRemoved (statistics e)) mine),
                  totalFilesChanged = sum_list (map (\<lambda>e. filesChanged (statistics e)) mine)\<rparr>)"

section \<open>log-implementation\<close>

text \<open>
  The request, \<^verbatim>\<open>args\<close>.  A property that may be \<^verbatim>\<open>undefined\<close> or \<^verbatim>\<open>null\<close> is an option.  The
  caller may put a \<^verbatim>\<open>filesChanged\<close> of its own into \<^verbatim>\<open>statistics\<close>; the handler never reads it.
\<close>

record StatisticsArg =
  s_linesAdded :: "int option"
  s_linesRemoved :: "int option"
  s_filesChanged :: "int option"

record LogArgs =
  a_projectPath :: "string option"
  a_specName :: string
  a_taskId :: string
  a_summary :: string
  a_filesModified :: "string list option"
  a_filesCreated :: "string list option"
  a_statistics :: "StatisticsArg option"
  a_artifacts :: "Artifacts option"

record ToolContext =
  c_projectPath :: "string option"

record LogData =
  entryId :: nat
  entry :: ImplementationLogEntry
  taskStats :: TaskStats

text \<open>\<^verbatim>\<open>args.projectPath || context.projectPath\<close>: an empty string is falsy.\<close>

definition resolveProjectPath :: "string option \<Rightarrow> string option \<Rightarrow> string option" where
  "resolveProjectPath a c =
     (case a of Some p \<Rightarrow> (if p \<noteq> [] then Some p else c) | None \<Rightarrow> c)"

definition truthy :: "string option \<Rightarrow> bool" where
  "truthy v = (case v of Some s \<Rightarrow> s \<noteq> [] | None \<Rightarrow> False)"

text \<open>\<^verbatim>\<open>x || 0\<close> on a number and \<^verbatim>\<open>xs || []\<close>, \<^verbatim>\<open>xs?.length || 0\<close> on a sequence.\<close>

definition orZero :: "int option \<Rightarrow> int" where
  "orZero v = (case v of Some n \<Rightarrow> n | None \<Rightarrow> 0)"

definition orEmpty :: "string list option \<Rightarrow> string list" where
  "orEmpty v = (case v of Some xs \<Rightarrow> xs | None \<Rightarrow> [])"

definition lengthOrZero :: "string list option \<Rightarrow> nat" where
  "lengthOrZero v = (case v of Some xs \<Rightarrow> length xs | None \<Rightarrow> 0)"

definition quoted :: "string \<Rightarrow> string" where
  "quoted s = [CHR 0x27] @ s @ [CHR 0x27]"

definition msgProjectPathRequired :: string where
  "msgProjectPathRequired = ''Project path is required but not provided in context or arguments''"

definition msgArtifactsRequired :: string where
  "msgArtifactsRequired =
     ''Artifacts field is REQUIRED. See tool description for detailed artifact format and examples.''"

definition msgTaskNotFound :: "string \<Rightarrow> string \<Rightarrow> string" where
  "msgTaskNotFound tid spec =
     ''Task '' @ quoted tid @ '' not found in specification '' @ quoted spec"

definition msgStatisticsUndefined :: string where
  "msgStatisticsUndefined =
     ''Cannot read properties of undefined (reading '' @ quoted ''linesAdded'' @ '')''"

text \<open>
  \<^verbatim>\<open>logImplementationHandler\<close>, lines 135 to 262.  \<open>parseTasksFromMarkdown\<close>
  (\<^verbatim>\<open>../core/task-parser.js\<close>, not among the sources) and the clock reading \<open>now\<close> of
  \<^verbatim>\<open>new Date().toISOString()\<close> are parameters, and so are the two operations of the log
  manager that the handler calls, \<^verbatim>\<open>logManager.addLogEntry\<close> and \<^verbatim>\<open>logManager.getTaskStats\<close>: what
  the handler computes itself, and what it leaves to the store, stay apart.  The result is
  the response and the file system after the call.
\<close>

type_synonym AddLogEntry =
  "World \<Rightarrow> bool \<Rightarrow> string \<Rightarrow> LogEntryInput \<Rightarrow> string + (ImplementationLogEntry \<times> World)"

type_synonym GetTaskStats =
  "World \<Rightarrow> bool \<Rightarrow> string \<Rightarrow> string \<Rightarrow> string + TaskStats"

definition logImplementationHandlerWith ::
  "AddLogEntry \<Rightarrow> GetTaskStats \<Rightarrow> (string \<Rightarrow> Task list) \<Rightarrow> string \<Rightarrow> LogArgs \<Rightarrow> ToolContext
     \<Rightarrow> World \<Rightarrow> LogData ToolResponse \<times> World" where
  "logImplementationHandlerWith logManager_addLogEntry logManager_getTaskStats
       parseTasksFromMarkdown now args context w =
     (if \<not> truthy (resolveProjectPath (a_projectPath args) (c_projectPath context))
      then (failure msgProjectPathRequired, w)
      else case a_artifacts args of
        None \<Rightarrow> (failure msgArtifactsRequired, w)
      | Some arts \<Rightarrow>
         (case tasksFile w (a_specName args) of
            Inl err \<Rightarrow> (failure (''Failed to validate task: '' @ err), w)
          | Inr tasksContent \<Rightarrow>
             if \<not> list_ex (\<lambda>t. task_id t = a_taskId args) (parseTasksFromMarkdown tasksContent)
             then (failure (msgTaskNotFound (a_taskId args) (a_specName args)), w)
             else
              (case a_statistics args of
                 None \<Rightarrow> (failure (''Failed to log implementation: '' @ msgStatisticsUndefined), w)
               | Some st \<Rightarrow>
                  let logEntry =
                        \<lparr>taskId = a_taskId args, timestamp = now, summary = a_summary args,
                         filesModified = orEmpty (a_filesModified args),
                         filesCreated = orEmpty (a_filesCreated args),
                         statistics =
                           \<lparr>linesAdded = orZero (s_linesAdded st),
                            linesRemoved = orZero (s_linesRemoved st),
                            filesChanged = lengthOrZero (a_filesModified args)
                                           + lengthOrZero (a_filesCreated args)\<rparr>,
                         artifacts = Some arts\<rparr>
                  in (case logManager_addLogEntry w False (a_specName args) logEntry of
                        Inl err \<Rightarrow> (failure (''Failed to log implementation: '' @ err), w)
                      | Inr (createdEntry, w') \<Rightarrow>
                         (case logManager_getTaskStats w' False (a_specName args)
                                 (a_taskId args) of
                            Inl err \<Rightarrow> (failure (''Failed to log implementation: '' @ err), w')
                          | Inr stats \<Rightarrow>
                             (\<lparr>success = True,
                               message = ''Implementation logged for task '' @ quoted (a_taskId args),
                               data = Some \<lparr>entryId = entry_id createdEntry,
                                            entry = createdEntry, taskStats = stats\<rparr>\<rparr>,
                              w'))))))"

text \<open>The handler on the log manager of section 4.2.\<close>

definition logImplementationHandler ::
  "(string \<Rightarrow> Task list) \<Rightarrow> string \<Rightarrow> LogArgs \<Rightarrow> ToolContext \<Rightarrow> World
     \<Rightarrow> LogData ToolResponse \<times> World" where
  "logImplementationHandler parseTasksFromMarkdown now args context w =
     logImplementationHandlerWith addLogEntry getTaskStats parseTasksFromMarkdown now args context w"

section \<open>query-logs\<close>

subsection \<open>Strings\<close>

text \<open>
  \<^verbatim>\<open>String.prototype.toLowerCase\<close> on ASCII text maps \<open>A\<close>..\<open>Z\<close> to \<open>a\<close>..\<open>z\<close> and leaves every
  other character alone; \<^verbatim>\<open>includes\<close> (here \<open>includes'\<close>) is substring search; \<^verbatim>\<open>trim\<close> strips white space
  (tab, line feed, vertical tab, form feed, carriage return, space) from both ends.
\<close>

definition lowerChar :: "char \<Rightarrow> char" where
  "lowerChar c =
     (case map_of (zip ''ABCDEFGHIJKLMNOPQRSTUVWXYZ'' ''abcdefghijklmnopqrstuvwxyz'') c of
        Some l \<Rightarrow> l
      | None \<Rightarrow> c)"

definition toLowerCase :: "string \<Rightarrow> string" where
  "toLowerCase s = map lowerChar s"

fun startsWith :: "string \<Rightarrow> string \<Rightarrow> bool" where
  "startsWith s [] = True"
| "startsWith [] (c # t) = False"
| "startsWith (d # s) (c # t) = (d = c \<and> startsWith s t)"

fun includes' :: "string \<Rightarrow> string \<Rightarrow> bool" where
  "includes' [] t = (t = [])"
| "includes' (d # s) t = (startsWith (d # s) t \<or> includes' s t)"

definition isWhiteSpace :: "char \<Rightarrow> bool" where
  "isWhiteSpace c = (c \<in> set [CHR 0x09, CHR 0x0A, CHR 0x0B, CHR 0x0C, CHR 0x0D, CHR 0x20])"

definition trim :: "string \<Rightarrow> string" where
  "trim s = rev (dropWhile isWhiteSpace (rev (dropWhile isWhiteSpace s)))"

text \<open>The decimal rendering of a length inside a template literal.\<close>

definition digitChar :: "nat \<Rightarrow> char" where
  "digitChar d = ''0123456789'' ! d"

fun showNat :: "nat \<Rightarrow> string" where
  "showNat n = (if n < 10 then [digitChar n] else showNat (n div 10) @ [digitChar (n mod 10)])"

declare showNat.simps [simp del]

subsection \<open>searchArtifacts\<close>

text \<open>The helper \<^verbatim>\<open>matchesSearch\<close>, closed over \<^verbatim>\<open>lowerSearchTerm\<close>.\<close>

fun matchesSearch :: "string \<Rightarrow> json \<Rightarrow> bool" where
  "matchesSearch lowerSearchTerm (JStr v) = includes' (toLowerCase v) lowerSearchTerm"
| "matchesSearch lowerSearchTerm (JArr vs) = list_ex (matchesSearch lowerSearchTerm) vs"
| "matchesSearch lowerSearchTerm JNull = False"
| "matchesSearch lowerSearchTerm (JBool b) = False"
| "matchesSearch lowerSearchTerm (JNum n) = False"
| "matchesSearch lowerSearchTerm (JObj fs) = False"

text \<open>The helper \<^verbatim>\<open>artifactMatches\<close>: \<^verbatim>\<open>Object.values(artifact).some(...)\<close>.\<close>

definition artifactMatches :: "string \<Rightarrow> artifact \<Rightarrow> bool" where
  "artifactMatches lowerSearchTerm a = list_ex (matchesSearch lowerSearchTerm) (map snd a)"

record ArtifactMatch =
  art_type :: string
  art_data :: json

text \<open>
  The guard \<^verbatim>\<open>!artifactTypeFilter || artifactTypeFilter === 'all' || artifactTypeFilter === key\<close>
  that each of the five blocks of \<^verbatim>\<open>searchArtifacts\<close> opens with.
\<close>

definition typeSelected :: "string option \<Rightarrow> string \<Rightarrow> bool" where
  "typeSelected artifactTypeFilter key =
     (\<not> truthy artifactTypeFilter \<or> artifactTypeFilter = Some ''all''
      \<or> artifactTypeFilter = Some key)"

text \<open>
  One of the five blocks: under the guard, and when the sequence is present, every
  matching artifact of the sequence is pushed with the block's type tag.
\<close>

definition searchSequence ::
  "string \<Rightarrow> string option \<Rightarrow> string \<Rightarrow> string \<Rightarrow> artifact list option \<Rightarrow> ArtifactMatch list" where
  "searchSequence lowerSearchTerm artifactTypeFilter key tag sequence =
     (if typeSelected artifactTypeFilter key
      then case sequence of
             None \<Rightarrow> []
           | Some as \<Rightarrow> map (\<lambda>a. \<lparr>art_type = tag, art_data = JObj a\<rparr>)
                            (filter (artifactMatches lowerSearchTerm) as)
      else [])"

definition searchArtifacts ::
  "ImplementationLogEntry \<Rightarrow> string \<Rightarrow> string option \<Rightarrow> ArtifactMatch list" where
  "searchArtifacts e searchTerm artifactTypeFilter =
     (let lowerSearchTerm = toLowerCase searchTerm
      in case artifacts e of
           None \<Rightarrow> []
         | Some arts \<Rightarrow>
             searchSequence lowerSearchTerm artifactTypeFilter ''apiEndpoints'' ''apiEndpoint''
               (apiEndpoints arts)
             @ searchSequence lowerSearchTerm artifactTypeFilter ''components'' ''component''
               (components arts)
             @ searchSequence lowerSearchTerm artifactTypeFilter ''functions'' ''function''
               (functions' arts)
             @ searchSequence lowerSearchTerm artifactTypeFilter ''classes'' ''class''
               (classes arts)
             @ searchSequence lowerSearchTerm artifactTypeFilter ''integrations'' ''integration''
               (integrations arts))"

subsection \<open>getAllSpecNames\<close>

record SpecRef =
  name :: string
  isArchived :: bool

definition directories :: "bool \<Rightarrow> (string \<times> bool) list \<Rightarrow> SpecRef list" where
  "directories archived es =
     map (\<lambda>d. \<lparr>name = fst d, isArchived = archived\<rparr>) (filter snd es)"

text \<open>
  A directory entry is its name and whether \<^verbatim>\<open>isDirectory()\<close> holds.  \<^verbatim>\<open>ENOENT\<close> on a root is
  swallowed; any other \<^verbatim>\<open>readdir\<close> error is thrown on.
\<close>

definition getAllSpecNames :: "World \<Rightarrow> bool \<Rightarrow> string + SpecRef list" where
  "getAllSpecNames w includeArchived =
     (case specDir w False of
        ReadError err \<Rightarrow> Inl err
      | active \<Rightarrow>
          let specs = (case active of Entries es \<Rightarrow> directories False es | _ \<Rightarrow> [])
          in if includeArchived
             then (case specDir w True of
                     ReadError err \<Rightarrow> Inl err
                   | ENOENT \<Rightarrow> Inr specs
                   | Entries es \<Rightarrow> Inr (specs @ directories True es))
             else Inr specs)"

subsection \<open>queryLogsHandler\<close>

record MatchContext =
  ctx_summary :: string
  ctx_filesModified :: "string list"
  ctx_filesCreated :: "string list"

record LogQueryMatch =
  m_specName :: string
  m_taskId :: string
  m_timestamp :: string
  m_isArchived :: bool
  m_artifact :: ArtifactMatch
  m_context :: MatchContext

record QueryLogsResponse =
  matches :: "LogQueryMatch list"
  searchTerm :: string
  specsSearched :: nat
  logsSearched :: nat

record QueryArgs =
  q_searchTerm :: string
  q_specName :: "string option"
  q_artifactType :: "string option"

text \<open>The row pushed for one artifact slot of one log entry of one specification.\<close>

definition mkMatch :: "SpecRef \<Rightarrow> ImplementationLogEntry \<Rightarrow> ArtifactMatch \<Rightarrow> LogQueryMatch" where
  "mkMatch spec log a =
     \<lparr>m_specName = name spec, m_taskId = taskId log, m_timestamp = timestamp log,
      m_isArchived = isArchived spec, m_artifact = a,
      m_context = \<lparr>ctx_summary = summary log, ctx_filesModified = filesModified log,
                   ctx_filesCreated = filesCreated log\<rparr>\<rparr>"

text \<open>The body of \<^verbatim>\<open>for (const log of logs)\<close>: the rows that one entry adds to \<^verbatim>\<open>allMatches\<close>.\<close>

definition matchRows ::
  "SpecRef \<Rightarrow> string \<Rightarrow> string option \<Rightarrow> ImplementationLogEntry \<Rightarrow> LogQueryMatch list" where
  "matchRows spec term artifactType log =
     (let summaryMatch = includes' (toLowerCase (summary log)) (toLowerCase term);
          found = searchArtifacts log term artifactType
      in if summaryMatch \<or> length found > 0
         then if length found > 0
              then map (mkMatch spec log) found
              else if summaryMatch
                   then [mkMatch spec log
                           \<lparr>art_type = ''function'',
                            art_data = JObj [(''summary'', JStr (summary log))]\<rparr>]
                   else []
         else [])"

text \<open>
  The loop \<^verbatim>\<open>for (const spec of specsToSearch)\<close> with its two accumulators \<^verbatim>\<open>allMatches\<close> and
  \<^verbatim>\<open>logsSearchedCount\<close>; a specification whose \<^verbatim>\<open>getAllLogs\<close> throws is skipped.
\<close>

fun searchSpecs ::
  "World \<Rightarrow> string \<Rightarrow> string option \<Rightarrow> SpecRef list \<Rightarrow> LogQueryMatch list \<times> nat
     \<Rightarrow> LogQueryMatch list \<times> nat" where
  "searchSpecs w term artifactType [] acc = acc"
| "searchSpecs w term artifactType (spec # rest) (allMatches, logsSearchedCount) =
     (case getAllLogs w (isArchived spec) (name spec) of
        Inl err \<Rightarrow> searchSpecs w term artifactType rest (allMatches, logsSearchedCount)
      | Inr logs \<Rightarrow>
          searchSpecs w term artifactType rest
            (allMatches @ concat (map (matchRows spec term artifactType) logs),
             logsSearchedCount + length logs))"

text \<open>
  Lines 207 to 237: the specifications to search, or the failure response the handler
  returns instead (an unknown name; a \<^verbatim>\<open>readdir\<close> error caught by the outer \<^verbatim>\<open>catch\<close>).
\<close>

definition specsToSearch :: "QueryArgs \<Rightarrow> World \<Rightarrow> QueryLogsResponse ToolResponse + SpecRef list" where
  "specsToSearch args w =
     (case (if truthy (q_specName args) then q_specName args else None) of
        Some specName \<Rightarrow>
          if accessible w False specName
          then Inr [\<lparr>name = specName, isArchived = False\<rparr>]
          else if accessible w True specName
               then Inr [\<lparr>name = specName, isArchived = True\<rparr>]
               else Inl (failure (''Spec not found: '' @ specName))
      | None \<Rightarrow>
          (case getAllSpecNames w True of
             Inl err \<Rightarrow> Inl (failure (''Failed to query logs: '' @ err))
           | Inr specs \<Rightarrow> Inr specs))"

definition dquoted :: "string \<Rightarrow> string" where
  "dquoted s = [CHR 0x22] @ s @ [CHR 0x22]"

definition queryMessage :: "string \<Rightarrow> nat \<Rightarrow> nat \<Rightarrow> string" where
  "queryMessage term limited fullCount =
     (if limited = 0 then ''No matches found for '' @ dquoted term
      else if limited < fullCount
           then ''Found '' @ showNat limited @ '' match(es) (limited from '' @ showNat fullCount
                @ '' total)''
           else ''Found '' @ showNat limited @ '' match(es)'')"

definition queryLogsHandler :: "QueryArgs \<Rightarrow> World \<Rightarrow> QueryLogsResponse ToolResponse" where
  "queryLogsHandler args w =
     (if q_searchTerm args = [] \<or> length (trim (q_searchTerm args)) = 0
      then failure ''Search term is required and must be non-empty''
      else case specsToSearch args w of
             Inl response \<Rightarrow> response
           | Inr specs \<Rightarrow>
               let (allMatches, logsSearchedCount) =
                     searchSpecs w (q_searchTerm args) (q_artifactType args) specs ([], 0);
                   limitedMatches = take 100 allMatches
               in \<lparr>success = True,
                   message = queryMessage (q_searchTerm args) (length limitedMatches)
                               (length allMatches),
                   data = Some \<lparr>matches = limitedMatches, searchTerm = q_searchTerm args,
                                specsSearched = length specs,
                                logsSearched = logsSearchedCount\<rparr>\<rparr>)"

section \<open>The claims' vocabulary\<close>

text \<open>
  The definitions of this section follow the wording of the specification, not the code;
  the theorems below relate them to the handlers.
\<close>

text \<open>``Case-insensitive substring containment''.\<close>

definition ciSubstring :: "string \<Rightarrow> string \<Rightarrow> bool" where
  "ciSubstring term text = (\<exists>pre post. toLowerCase text = pre @ toLowerCase term @ post)"

text \<open>
  A string-valued field matches when it contains the term; a sequence-valued field matches
  when some element does, recursively; nothing else matches.
\<close>

fun valueMatches :: "string \<Rightarrow> json \<Rightarrow> bool" where
  "valueMatches term (JStr s) = ciSubstring term s"
| "valueMatches term (JArr vs) = (\<exists>v \<in> set vs. valueMatches term v)"
| "valueMatches term JNull = False"
| "valueMatches term (JBool b) = False"
| "valueMatches term (JNum n) = False"
| "valueMatches term (JObj fs) = False"

definition artifactMatchesSpec :: "string \<Rightarrow> artifact \<Rightarrow> bool" where
  "artifactMatchesSpec term a = (\<exists>f \<in> set a. valueMatches term (snd f))"

text \<open>The strings of a field value that the search can reach: through sequences only.\<close>

fun searchedStrings :: "json \<Rightarrow> string list" where
  "searchedStrings (JStr s) = [s]"
| "searchedStrings (JArr vs) = concat (map searchedStrings vs)"
| "searchedStrings JNull = []"
| "searchedStrings (JBool b) = []"
| "searchedStrings (JNum n) = []"
| "searchedStrings (JObj fs) = []"

text \<open>
  The artifact sequences ``selected by the type filter (default: all five types)'', in the
  order the types are searched.  A filter that is absent, empty or \<^verbatim>\<open>'all'\<close> selects all five.
\<close>

definition allTypes :: "string list" where
  "allTypes = [''apiEndpoints'', ''components'', ''functions'', ''classes'', ''integrations'']"

definition selectedTypes :: "string option \<Rightarrow> string list" where
  "selectedTypes artifactType =
     (case artifactType of
        None \<Rightarrow> allTypes
      | Some f \<Rightarrow> if f = [] \<or> f = ''all'' then allTypes else [f])"

definition present :: "artifact list option \<Rightarrow> artifact list" where
  "present sq = (case sq of None \<Rightarrow> [] | Some as \<Rightarrow> as)"

definition sequenceNamed :: "Artifacts \<Rightarrow> string \<Rightarrow> artifact list" where
  "sequenceNamed arts key =
     (if key = ''apiEndpoints'' then present (apiEndpoints arts)
      else if key = ''components'' then present (components arts)
      else if key = ''functions'' then present (functions' arts)
      else if key = ''classes'' then present (classes arts)
      else if key = ''integrations'' then present (integrations arts)
      else [])"

definition selectedArtifacts :: "string option \<Rightarrow> ImplementationLogEntry \<Rightarrow> artifact list" where
  "selectedArtifacts artifactType e =
     (case artifacts e of
        None \<Rightarrow> []
      | Some arts \<Rightarrow> concat (map (sequenceNamed arts) (selectedTypes artifactType)))"

definition entryMatches :: "string \<Rightarrow> string option \<Rightarrow> ImplementationLogEntry \<Rightarrow> bool" where
  "entryMatches term artifactType e =
     (ciSubstring term (summary e)
      \<or> (\<exists>a \<in> set (selectedArtifacts artifactType e). artifactMatchesSpec term a))"

text \<open>What one specification contributes to a query: its rows and its number of logs.\<close>

definition specRows :: "World \<Rightarrow> string \<Rightarrow> string option \<Rightarrow> SpecRef \<Rightarrow> LogQueryMatch list" where
  "specRows w term artifactType spec =
     (case getAllLogs w (isArchived spec) (name spec) of
        Inl err \<Rightarrow> []
      | Inr logs \<Rightarrow> concat (map (matchRows spec term artifactType) logs))"

definition specLogCount :: "World \<Rightarrow> SpecRef \<Rightarrow> nat" where
  "specLogCount w spec =
     (case getAllLogs w (isArchived spec) (name spec) of Inl err \<Rightarrow> 0 | Inr logs \<Rightarrow> length logs)"

text \<open>Reading a response message: does it end with a given text; what number does it show.\<close>

definition endsWith :: "string \<Rightarrow> string \<Rightarrow> bool" where
  "endsWith s t = startsWith (rev s) (rev t)"

definition digitValue :: "char \<Rightarrow> nat" where
  "digitValue c =
     (case map_of (zip ''0123456789'' [0, 1, 2, 3, 4, 5, 6, 7, 8, 9]) c of
        Some d \<Rightarrow> d
      | None \<Rightarrow> 0)"

definition readNat :: "string \<Rightarrow> nat" where
  "readNat s = foldl (\<lambda>acc c. 10 * acc + digitValue c) 0 s"

text \<open>The \<^verbatim>\<open>logEntry\<close> literal that \<^verbatim>\<open>logImplementationHandler\<close> hands to the store.\<close>

definition logEntryOf :: "string \<Rightarrow> LogArgs \<Rightarrow> StatisticsArg \<Rightarrow> Artifacts \<Rightarrow> LogEntryInput" where
  "logEntryOf now args st arts =
     \<lparr>taskId = a_taskId args, timestamp = now, summary = a_summary args,
      filesModified = orEmpty (a_filesModified args),
      filesCreated = orEmpty (a_filesCreated args),
      statistics = \<lparr>linesAdded = orZero (s_linesAdded st), linesRemoved = orZero (s_linesRemoved st),
                    filesChanged = lengthOrZero (a_filesModified args)
                                   + lengthOrZero (a_filesCreated args)\<rparr>,
      artifacts = Some arts\<rparr>"

section \<open>Sample project\<close>

text \<open>
  A small project on which the theorems are instantiated: the active specifications
  \<open>auth\<close> (one logged class) and \<open>broken\<close> (an unreadable log collection), the archived
  specification \<open>legacy\<close>, and a stray file in the active root.  \<open>sampleParse\<close> stands for
  the task parser on the sample task document, whose only task is \<open>1\<close>.
\<close>

definition sampleParse :: "string \<Rightarrow> Task list" where
  "sampleParse doc = [\<lparr>task_id = ''1'', task_status = ''pending'', task_description = doc\<rparr>]"

definition sampleArtifacts :: Artifacts where
  "sampleArtifacts =
     \<lparr>apiEndpoints = None, components = None, functions' = None,
      classes = Some [ [(''name'', JStr ''UserService''),
                       (''location'', JStr ''services/user.ts''),
                       (''methods'', JArr [JStr ''create'', JStr ''update''])] ],
      integrations = None\<rparr>"

definition sampleEntry :: ImplementationLogEntry where
  "sampleEntry =
     \<lparr>taskId = ''1'', timestamp = ''2025-01-01T00:00:00.000Z'', summary = ''Added user CRUD'',
      filesModified = [], filesCreated = [''services/user.ts''],
      statistics = \<lparr>linesAdded = 10, linesRemoved = 2, filesChanged = 1\<rparr>,
      artifacts = Some sampleArtifacts, entry_id = 1\<rparr>"

definition hashEntry :: ImplementationLogEntry where
  "hashEntry =
     \<lparr>taskId = ''2'', timestamp = ''2025-01-02T00:00:00.000Z'', summary = ''Password hashing'',
      filesModified = [''utils/auth.ts''], filesCreated = [],
      statistics = \<lparr>linesAdded = 5, linesRemoved = 1, filesChanged = 1\<rparr>,
      artifacts = Some \<lparr>apiEndpoints = None, components = None,
                        functions' = Some [ [(''name'', JStr ''hashPassword'')] ],
                        classes = None, integrations = None\<rparr>,
      entry_id = 2\<rparr>"

definition sampleWorld :: World where
  "sampleWorld =
     \<lparr>tasksFile = (\<lambda>n. if n = ''auth'' then Inr ''- [ ] 1. Add login'' else Inl ''ENOENT''),
      logFile = (\<lambda>a n. if \<not> a \<and> n = ''auth'' then Stored [sampleEntry]
                        else if \<not> a \<and> n = ''broken'' then Unreadable ''Unexpected token''
                        else if a \<and> n = ''legacy'' then Stored [sampleEntry]
                        else Missing),
      specDir = (\<lambda>a. if a then Entries [(''legacy'', True)]
                      else Entries [(''broken'', True), (''auth'', True), (''README.md'', False)]),
      accessible = (\<lambda>a n. if a then n = ''legacy'' else n = ''auth'' \<or> n = ''broken'')\<rparr>"

text \<open>The same project with 150 copies of the entry logged under \<open>auth\<close>.\<close>

definition bigWorld :: World where
  "bigWorld = sampleWorld\<lparr>logFile :=
     (\<lambda>a n. if \<not> a \<and> n = ''auth'' then Stored (replicate 150 sampleEntry) else Missing)\<rparr>"

definition sampleQuery :: "string \<Rightarrow> string option \<Rightarrow> QueryArgs" where
  "sampleQuery term spec = \<lparr>q_searchTerm = term, q_specName = spec, q_artifactType = None\<rparr>"

definition emptyArtifacts :: Artifacts where
  "emptyArtifacts =
     \<lparr>apiEndpoints = None, components = None, functions' = None, classes = None,
      integrations = None\<rparr>"

definition sampleArgs :: LogArgs where
  "sampleArgs =
     \<lparr>a_projectPath = None, a_specName = ''auth'', a_taskId = ''1'', a_summary = ''did stuff'',
      a_filesModified = Some [''a.ts''], a_filesCreated = Some [''b.ts'', ''c.ts''],
      a_statistics = Some \<lparr>s_linesAdded = Some 10, s_linesRemoved = Some 2,
                            s_filesChanged = Some 99\<rparr>,
      a_artifacts = Some emptyArtifacts\<rparr>"

text \<open>
  A log manager that differs from the one of section 4.2 in one point: it persists the
  statistics exactly as they are handed over, and computes no \<open>filesChanged\<close> of its own.
\<close>

definition addLogEntryAsGiven :: AddLogEntry where
  "addLogEntryAsGiven w archived nm e =
     (case getAllLogs w archived nm of
        Inl err \<Rightarrow> Inl err
      | Inr es \<Rightarrow>
          let created = \<lparr>taskId = taskId e, timestamp = timestamp e, summary = summary e,
                         filesModified = filesModified e, filesCreated = filesCreated e,
                         statistics = statistics e,
                         artifacts = artifacts e, entry_id = freshId es\<rparr>
          in Inr (created,
                  w\<lparr>logFile := (\<lambda>a n. if a = archived \<and> n = nm then Stored (es @ [created])
                                       else logFile w a n)\<rparr>))"

definition sampleContext :: ToolContext where
  "sampleContext = \<lparr>c_projectPath = Some ''/project''\<rparr>"

definition authSpec :: SpecRef where
  "authSpec = \<lparr>name = ''auth'', isArchived = False\<rparr>"

section \<open>Supporting lemmas\<close>

subsection \<open>Strings\<close>

lemma startsWith_iff: "startsWith s t \<longleftrightarrow> (\<exists>q. s = t @ q)"
  by (induction s t rule: startsWith.induct) auto

lemma includes_iff: "includes' s t \<longleftrightarrow> (\<exists>p q. s = p @ t @ q)"
proof (induction s)
  case Nil
  then show ?case by auto
next
  case (Cons d s)
  show ?case
  proof
    assume "includes' (d # s) t"
    then consider "startsWith (d # s) t" | "includes' s t" by auto
    then show "\<exists>p q. d # s = p @ t @ q"
    proof cases
      case 1
      then obtain q where "d # s = t @ q" by (auto simp: startsWith_iff)
      then have "d # s = [] @ t @ q" by simp
      then show ?thesis by blast
    next
      case 2
      then obtain p q where "s = p @ t @ q" using Cons.IH by auto
      then have "d # s = (d # p) @ t @ q" by simp
      then show ?thesis by blast
    qed
  next
    assume "\<exists>p q. d # s = p @ t @ q"
    then obtain p q where pq: "d # s = p @ t @ q" by auto
    show "includes' (d # s) t"
    proof (cases p)
      case Nil
      then have "startsWith (d # s) t" using pq by (auto simp: startsWith_iff)
      then show ?thesis by simp
    next
      case (Cons x p')
      then have "s = p' @ t @ q" using pq by simp
      then have "includes' s t" using Cons.IH by blast
      then show ?thesis by simp
    qed
  qed
qed

lemma includes_ciSubstring:
  "includes' (toLowerCase text) (toLowerCase t) \<longleftrightarrow> ciSubstring t text"
  by (simp add: includes_iff ciSubstring_def)

lemma endsWith_append: "endsWith (s @ t) t"
  by (simp add: endsWith_def startsWith_iff)

lemma digitValue_digitChar: "d < 10 \<Longrightarrow> digitValue (digitChar d) = d"
  by (auto simp: eval_nat_numeral less_Suc_eq digitValue_def digitChar_def)

text \<open>The decimal rendering loses nothing: the number can be read back from it.\<close>

lemma readNat_showNat: "readNat (showNat n) = n"
proof (induction n rule: showNat.induct)
  case (1 n)
  show ?case
  proof (cases "n < 10")
    case True
    then show ?thesis
      by (subst showNat.simps) (simp add: readNat_def digitValue_digitChar)
  next
    case False
    then have "readNat (showNat (n div 10)) = n div 10" using 1 by simp
    then show ?thesis using False
      by (subst showNat.simps) (simp add: readNat_def digitValue_digitChar)
  qed
qed

lemma showNat_inj: "showNat a = showNat b \<Longrightarrow> a = b"
  by (metis readNat_showNat)

lemma showNat_100: "showNat 100 = ''100''"
  by (simp add: showNat.simps digitChar_def)

lemma showNat_150: "showNat 150 = ''150''"
  by (simp add: showNat.simps digitChar_def)

subsection \<open>Matching\<close>

lemma matchesSearch_iff: "matchesSearch (toLowerCase t) v \<longleftrightarrow> valueMatches t v"
  by (induction v) (auto simp: includes_ciSubstring list_ex_iff)

lemma matchesSearch_strings:
  "matchesSearch l v \<longleftrightarrow> (\<exists>s \<in> set (searchedStrings v). includes' (toLowerCase s) l)"
  by (induction v) (auto simp: list_ex_iff)

lemma artifactMatches_iff: "artifactMatches (toLowerCase t) a \<longleftrightarrow> artifactMatchesSpec t a"
  by (auto simp: artifactMatches_def artifactMatchesSpec_def list_ex_iff matchesSearch_iff)

lemma searchSequence_tag: "m \<in> set (searchSequence l filt key tag sq) \<Longrightarrow> art_type m = tag"
  unfolding searchSequence_def
  by (cases sq; cases "typeSelected filt key") auto

lemma searchSequence_data:
  "map art_data (searchSequence l filt key tag sq)
     = (if typeSelected filt key then map JObj (filter (artifactMatches l) (present sq)) else [])"
  by (auto simp: searchSequence_def present_def split: option.splits)

lemma searchArtifacts_data:
  "map art_data (searchArtifacts e t filt)
     = map JObj (filter (artifactMatchesSpec t) (selectedArtifacts filt e))"
proof (cases "artifacts e")
  case None
  then show ?thesis by (simp add: searchArtifacts_def selectedArtifacts_def)
next
  case (Some arts)
  have eq: "filter (artifactMatchesSpec t) = filter (artifactMatches (toLowerCase t))"
    by (simp add: artifactMatches_iff[abs_def])
  consider "\<not> truthy filt \<or> filt = Some ''all''"
    | f where "filt = Some f" "f \<noteq> []" "f \<noteq> ''all''"
    by (cases filt) (auto simp: truthy_def)
  then show ?thesis
  proof cases
    case 1
    then have sel: "\<And>key. typeSelected filt key" by (auto simp: typeSelected_def)
    from 1 have st: "selectedTypes filt = allTypes"
      by (auto simp: selectedTypes_def truthy_def split: option.splits)
    show ?thesis
      by (simp add: searchArtifacts_def selectedArtifacts_def Some Let_def searchSequence_data
          sel st allTypes_def sequenceNamed_def eq)
  next
    case 2
    then have sel: "\<And>key. typeSelected filt key \<longleftrightarrow> key = f"
      by (auto simp: typeSelected_def truthy_def)
    from 2 have st: "selectedTypes filt = [f]"
      by (auto simp: selectedTypes_def)
    show ?thesis
      by (auto simp add: searchArtifacts_def selectedArtifacts_def Some Let_def
          searchSequence_data sel st sequenceNamed_def eq)
  qed
qed

lemma searchArtifacts_empty_iff:
  "searchArtifacts e t filt = []
     \<longleftrightarrow> filter (artifactMatchesSpec t) (selectedArtifacts filt e) = []"
proof -
  have "searchArtifacts e t filt = [] \<longleftrightarrow> map art_data (searchArtifacts e t filt) = []"
    by simp
  also have "\<dots> \<longleftrightarrow> map JObj (filter (artifactMatchesSpec t) (selectedArtifacts filt e)) = []"
    by (simp only: searchArtifacts_data)
  finally show ?thesis by simp
qed

lemma matchRows_cases:
  "matchRows spec t filt e =
     (if searchArtifacts e t filt \<noteq> [] then map (mkMatch spec e) (searchArtifacts e t filt)
      else if ciSubstring t (summary e)
           then [mkMatch spec e \<lparr>art_type = ''function'',
                                  art_data = JObj [(''summary'', JStr (summary e))]\<rparr>]
           else [])"
  by (simp add: matchRows_def Let_def includes_ciSubstring)

lemma matchRows_context:
  "r \<in> set (matchRows spec t filt e) \<Longrightarrow>
     m_taskId r = taskId e \<and> m_timestamp r = timestamp e \<and> m_specName r = name spec
     \<and> m_isArchived r = isArchived spec
     \<and> m_context r = \<lparr>ctx_summary = summary e, ctx_filesModified = filesModified e,
                        ctx_filesCreated = filesCreated e\<rparr>"
  by (auto simp: matchRows_cases mkMatch_def split: if_splits)

subsection \<open>The loop over the specifications\<close>

lemma searchSpecs_acc:
  "searchSpecs w t filt specs (ms, n)
     = (ms @ concat (map (specRows w t filt) specs), n + sum_list (map (specLogCount w) specs))"
  by (induction specs arbitrary: ms n) (auto simp: specRows_def specLogCount_def split: sum.splits)

lemma specRows_origin:
  "r \<in> set (specRows w t filt spec) \<Longrightarrow>
     m_specName r = name spec \<and> m_isArchived r = isArchived spec"
  by (auto simp: specRows_def split: sum.splits dest: matchRows_context)

lemma queryMessage_reports:
  "endsWith (queryMessage t (min n 100) n) '' total)'' \<longleftrightarrow> 100 < n"
proof (cases "100 < n")
  case True
  then have "queryMessage t (min n 100) n
     = (''Found '' @ showNat 100 @ '' match(es) (limited from '' @ showNat n) @ '' total)''"
    by (simp add: queryMessage_def min_def)
  then show ?thesis using True endsWith_append by metis
next
  case False
  then have "min n 100 = n" by simp
  then show ?thesis using False
    by (simp add: queryMessage_def endsWith_def dquoted_def)
qed

lemma length_concat_replicate: "length (concat (replicate n [x])) = n"
  by (induction n) auto

subsection \<open>The log store\<close>

lemma getAllLogs_after_add:
  "addLogEntry w a n e = Inr (c, w') \<Longrightarrow>
     \<exists>es. getAllLogs w a n = Inr es \<and> getAllLogs w' a n = Inr (es @ [c])"
  by (auto simp: addLogEntry_def getAllLogs_def Let_def split: sum.splits LogFile.splits)

lemma addLogEntry_created:
  "addLogEntry w a n e = Inr (c, w') \<Longrightarrow>
     filesChanged (statistics c) = length (filesModified e) + length (filesCreated e)
     \<and> filesModified c = filesModified e \<and> filesCreated c = filesCreated e
     \<and> artifacts c = artifacts e \<and> taskId c = taskId e"
  by (auto simp: addLogEntry_def Let_def split: sum.splits)

lemma addLogEntry_readable:
  "getAllLogs w a n = Inr es \<Longrightarrow> \<exists>c w'. addLogEntry w a n e = Inr (c, w')"
  by (simp add: addLogEntry_def Let_def)

lemma getTaskStats_after_add:
  "addLogEntry w a n e = Inr (c, w') \<Longrightarrow> \<exists>st. getTaskStats w' a n t = Inr st"
  by (drule getAllLogs_after_add) (auto simp: getTaskStats_def Let_def)

lemma orEmpty_length: "length (orEmpty v) = lengthOrZero v"
  by (simp add: orEmpty_def lengthOrZero_def split: option.splits)

subsection \<open>logImplementationHandler\<close>

lemmas handler_defs = logImplementationHandler_def logImplementationHandlerWith_def

lemma handlerWith_success:
  assumes "logImplementationHandlerWith add stats parse now args ctx w = (r, w')" and "success r"
  shows "\<exists>arts st created ts.
           a_artifacts args = Some arts \<and> a_statistics args = Some st
         \<and> add w False (a_specName args) (logEntryOf now args st arts) = Inr (created, w')
         \<and> r = \<lparr>success = True,
                 message = ''Implementation logged for task '' @ quoted (a_taskId args),
                 data = Some \<lparr>entryId = entry_id created, entry = created, taskStats = ts\<rparr>\<rparr>"
  using assms unfolding logImplementationHandlerWith_def Let_def logEntryOf_def
  by (auto simp: failure_def split: if_splits option.splits sum.splits prod.splits)

text \<open>A failed append leaves the file system as it was.\<close>

lemma handler_failure_keeps_world:
  "logImplementationHandler parse now args ctx w = (r, w') \<Longrightarrow> \<not> success r \<Longrightarrow> w' = w"
  unfolding handler_defs Let_def
  by (auto simp: failure_def split: if_splits option.splits sum.splits prod.splits
           dest: getTaskStats_after_add[where t = "a_taskId args"])

lemma handlerWith_ignores_filesChanged:
  "a_statistics args = Some st \<Longrightarrow>
     logImplementationHandlerWith add stats parse now
       (args\<lparr>a_statistics := Some (st\<lparr>s_filesChanged := v\<rparr>)\<rparr>) ctx w
       = logImplementationHandlerWith add stats parse now args ctx w"
  by (cases "a_artifacts args"; cases "tasksFile w (a_specName args)")
     (simp_all add: logImplementationHandlerWith_def Let_def split: sum.splits prod.splits)

text \<open>An absent artifacts bag is refused before anything else is read.\<close>

lemma handler_absent_artifacts:
  assumes "truthy (resolveProjectPath (a_projectPath args) (c_projectPath ctx))"
      and "a_artifacts args = None"
  shows "logImplementationHandler parse now args ctx w = (failure msgArtifactsRequired, w)"
  using assms by (simp add: handler_defs)

text \<open>
  A present bag passes that check whatever it holds: with a known task, statistics and a
  readable collection the entry is appended.
\<close>

lemma handler_present_artifacts:
  assumes "truthy (resolveProjectPath (a_projectPath args) (c_projectPath ctx))"
      and "a_artifacts args = Some arts"
      and "tasksFile w (a_specName args) = Inr doc"
      and "a_taskId args \<in> task_id ` set (parse doc)"
      and "a_statistics args = Some st"
      and "getAllLogs w False (a_specName args) = Inr old"
  shows "\<exists>created r w'. logImplementationHandler parse now args ctx w = (r, w') \<and> success r
           \<and> getAllLogs w' False (a_specName args) = Inr (old @ [created])
           \<and> artifacts created = Some arts"
proof -
  from addLogEntry_readable[OF assms(6)] obtain c w' where
    a: "addLogEntry w False (a_specName args) (logEntryOf now args st arts) = Inr (c, w')"
    by blast
  from getTaskStats_after_add[OF a] obtain ts where
    s: "getTaskStats w' False (a_specName args) (a_taskId args) = Inr ts" by blast
  have ex: "list_ex (\<lambda>t. task_id t = a_taskId args) (parse doc)"
    using assms(4) by (auto simp: list_ex_iff)
  have "logImplementationHandler parse now args ctx w =
      (\<lparr>success = True, message = ''Implementation logged for task '' @ quoted (a_taskId args),
        data = Some \<lparr>entryId = entry_id c, entry = c, taskStats = ts\<rparr>\<rparr>, w')"
    using assms(1,2,3,5) ex a s
    by (simp add: handler_defs Let_def logEntryOf_def)
  moreover from getAllLogs_after_add[OF a] assms(6)
  have "getAllLogs w' False (a_specName args) = Inr (old @ [c])" by simp
  moreover from addLogEntry_created[OF a] have "artifacts c = Some arts"
    by (simp add: logEntryOf_def)
  ultimately show ?thesis by simp
qed

text \<open>
  Both log managers append the entry they are given; the one of section 4.2 recomputes
  \<open>filesChanged\<close> from the two file sequences, the other keeps the value handed over.
\<close>

lemma addLogEntry_appends:
  "addLogEntry w False n e = Inr (c, w') \<Longrightarrow>
     (\<exists>old. getAllLogs w False n = Inr old \<and> getAllLogs w' False n = Inr (old @ [c]))
     \<and> filesModified c = filesModified e \<and> filesCreated c = filesCreated e
     \<and> (filesChanged (statistics c) = filesChanged (statistics e)
          \<or> filesChanged (statistics c) = length (filesModified e) + length (filesCreated e))"
  using getAllLogs_after_add[of w False n e c w'] addLogEntry_created[of w False n e c w']
  by simp

lemma addLogEntryAsGiven_appends:
  "addLogEntryAsGiven w False n e = Inr (c, w') \<Longrightarrow>
     (\<exists>old. getAllLogs w False n = Inr old \<and> getAllLogs w' False n = Inr (old @ [c]))
     \<and> filesModified c = filesModified e \<and> filesCreated c = filesCreated e
     \<and> (filesChanged (statistics c) = filesChanged (statistics e)
          \<or> filesChanged (statistics c) = length (filesModified e) + length (filesCreated e))"
  by (auto simp: addLogEntryAsGiven_def getAllLogs_def Let_def split: sum.splits LogFile.splits)

subsection \<open>The sample project, evaluated\<close>

lemmas log_eval = logImplementationHandler_def logImplementationHandlerWith_def truthy_def resolveProjectPath_def
  addLogEntry_def getAllLogs_def getTaskStats_def freshId_def orEmpty_def orZero_def
  lengthOrZero_def Let_def sampleParse_def sampleArgs_def sampleContext_def sampleWorld_def
  sampleEntry_def

lemmas match_eval = matchRows_def searchArtifacts_def searchSequence_def typeSelected_def
  truthy_def artifactMatches_def toLowerCase_def lowerChar_def Let_def

lemmas query_eval = queryLogsHandler_def specsToSearch_def sampleQuery_def truthy_def trim_def
  isWhiteSpace_def Let_def split_beta

lemma sample_rows:
  "matchRows spec ''userSERVICE'' None sampleEntry
     = [mkMatch spec sampleEntry
          \<lparr>art_type = ''class'',
           art_data = JObj [(''name'', JStr ''UserService''),
                            (''location'', JStr ''services/user.ts''),
                            (''methods'', JArr [JStr ''create'', JStr ''update''])]\<rparr>]"
  by (simp add: match_eval sampleEntry_def sampleArtifacts_def)

lemma sample_rows_summary:
  "matchRows spec ''crud'' None sampleEntry
     = [mkMatch spec sampleEntry
          \<lparr>art_type = ''function'', art_data = JObj [(''summary'', JStr ''Added user CRUD'')]\<rparr>]"
  by (simp add: match_eval sampleEntry_def sampleArtifacts_def)

lemma sample_rows_none: "matchRows spec ''zzz-nonexistent'' None sampleEntry = []"
  by (simp add: match_eval sampleEntry_def sampleArtifacts_def)

lemma sample_specs:
  "getAllSpecNames sampleWorld True
     = Inr ([] @ \<lparr>name = ''broken'', isArchived = False\<rparr>
               # [\<lparr>name = ''auth'', isArchived = False\<rparr>, \<lparr>name = ''legacy'', isArchived = True\<rparr>])"
  by (simp add: getAllSpecNames_def directories_def sampleWorld_def)

section \<open>The claims\<close>

text \<open>
  C1. The claim: an append request whose artifacts bag is present but holds no non-empty
  sequence (\<^verbatim>\<open>artifacts: {}\<close>) is rejected with a validation error and nothing is persisted.
  The handler's check is \<^verbatim>\<open>if (!artifacts)\<close>, and an empty object is truthy.  On the sample
  project, the request for the known task \<open>1\<close> with the empty bag succeeds, and the log
  collection of \<open>auth\<close> grows from one entry to two; the new entry carries the empty bag.
\<close>

theorem C1_empty_bag_is_persisted:
  "a_artifacts sampleArgs = Some emptyArtifacts
   \<and> success (fst (logImplementationHandler sampleParse ''t0'' sampleArgs sampleContext sampleWorld))
   \<and> getAllLogs sampleWorld False ''auth'' = Inr [sampleEntry]
   \<and> getAllLogs (snd (logImplementationHandler sampleParse ''t0'' sampleArgs sampleContext
                         sampleWorld)) False ''auth''
       = Inr [sampleEntry,
              \<lparr>taskId = ''1'', timestamp = ''t0'', summary = ''did stuff'',
               filesModified = [''a.ts''], filesCreated = [''b.ts'', ''c.ts''],
               statistics = \<lparr>linesAdded = 10, linesRemoved = 2, filesChanged = 3\<rparr>,
               artifacts = Some emptyArtifacts, entry_id = 2\<rparr>]"
  by (simp add: log_eval)

text \<open>
  C2. A successful query returns the first 100 rows, in order, of the full match sequence
  that the loop over the specifications builds.  The response message ends with
  \<open>total)\<close> exactly when rows were cut off, and then it reads
  \<open>Found 100 match(es) (limited from N total)\<close> with \<open>N\<close> the number of matches before the
  cut; when nothing was cut off, the returned rows are all the matches.  (A failed query
  returns no rows at all: its \<open>data\<close> is absent.)
\<close>

theorem C2_capped_at_100_and_reported:
  assumes "success (queryLogsHandler args w)"
  shows "\<exists>resp specs.
           data (queryLogsHandler args w) = Some resp
         \<and> specsToSearch args w = Inr specs
         \<and> matches resp
             = take 100 (fst (searchSpecs w (q_searchTerm args) (q_artifactType args) specs ([], 0)))
         \<and> length (matches resp) \<le> 100
         \<and> (endsWith (message (queryLogsHandler args w)) '' total)'' \<longleftrightarrow>
              100 < length (fst (searchSpecs w (q_searchTerm args) (q_artifactType args) specs
                                   ([], 0))))
         \<and> (100 < length (fst (searchSpecs w (q_searchTerm args) (q_artifactType args) specs
                                  ([], 0))) \<longrightarrow>
              message (queryLogsHandler args w)
                = ''Found 100 match(es) (limited from ''
                  @ showNat (length (fst (searchSpecs w (q_searchTerm args) (q_artifactType args)
                                             specs ([], 0))))
                  @ '' total)'')
         \<and> (length (fst (searchSpecs w (q_searchTerm args) (q_artifactType args) specs ([], 0)))
               \<le> 100 \<longrightarrow>
              matches resp
                = fst (searchSpecs w (q_searchTerm args) (q_artifactType args) specs ([], 0)))"
proof -
  from assms have valid: "\<not> (q_searchTerm args = [] \<or> length (trim (q_searchTerm args)) = 0)"
    by (auto simp: queryLogsHandler_def failure_def split: if_splits)
  from assms valid obtain specs where specs: "specsToSearch args w = Inr specs"
    by (cases "specsToSearch args w")
       (auto simp: queryLogsHandler_def specsToSearch_def failure_def
             split: if_splits option.splits sum.splits)
  let ?all = "fst (searchSpecs w (q_searchTerm args) (q_artifactType args) specs ([], 0))"
  let ?n = "snd (searchSpecs w (q_searchTerm args) (q_artifactType args) specs ([], 0))"
  have r: "queryLogsHandler args w =
      \<lparr>success = True,
       message = queryMessage (q_searchTerm args) (min (length ?all) 100) (length ?all),
       data = Some \<lparr>matches = take 100 ?all, searchTerm = q_searchTerm args,
                    specsSearched = length specs, logsSearched = ?n\<rparr>\<rparr>"
    using valid specs by (simp add: queryLogsHandler_def Let_def split_beta)
  have m: "100 < length ?all \<longrightarrow>
      queryMessage (q_searchTerm args) (min (length ?all) 100) (length ?all)
        = ''Found 100 match(es) (limited from '' @ showNat (length ?all) @ '' total)''"
    using showNat_100 by (simp add: queryMessage_def min_def)
  show ?thesis
    using specs m by (simp add: r queryMessage_reports)
qed

text \<open>
  Witness for C2: 150 matching entries under \<open>auth\<close>; the query returns 100 rows and its
  message gives the total of 150.
\<close>

theorem C2_witness:
  "success (queryLogsHandler (sampleQuery ''userSERVICE'' (Some ''auth'')) bigWorld)
   \<and> message (queryLogsHandler (sampleQuery ''userSERVICE'' (Some ''auth'')) bigWorld)
       = ''Found 100 match(es) (limited from 150 total)''
   \<and> (\<exists>resp. data (queryLogsHandler (sampleQuery ''userSERVICE'' (Some ''auth'')) bigWorld)
                = Some resp
            \<and> length (matches resp) = 100)"
proof -
  let ?q = "sampleQuery ''userSERVICE'' (Some ''auth'')"
  have s: "success (queryLogsHandler ?q bigWorld)"
    by (simp add: query_eval bigWorld_def sampleWorld_def)
  have sp: "specsToSearch ?q bigWorld = Inr [authSpec]"
    by (simp add: specsToSearch_def sampleQuery_def truthy_def bigWorld_def sampleWorld_def
        authSpec_def)
  have len: "length (fst (searchSpecs bigWorld (q_searchTerm ?q) (q_artifactType ?q) [authSpec]
                            ([], 0))) = 150"
    by (simp add: searchSpecs_acc specRows_def getAllLogs_def bigWorld_def authSpec_def
        sampleQuery_def sample_rows length_concat_replicate)
  from C2_capped_at_100_and_reported[OF s] sp len show ?thesis
    using s by (auto simp: showNat_150)
qed

text \<open>
  C3. An append request that passes the earlier checks of the handler (a project path,
  an artifacts bag) and names a \<open>taskId\<close> that is not the id of any task parsed from the
  readable task document fails with the message
  \<open>Task '<taskId>' not found in specification '<specName>'\<close>, and the file system, so the
  log collection too, is what it was.
\<close>

theorem C3_unknown_task_not_found:
  assumes "truthy (resolveProjectPath (a_projectPath args) (c_projectPath ctx))"
      and "a_artifacts args = Some arts"
      and "tasksFile w (a_specName args) = Inr doc"
      and "a_taskId args \<notin> task_id ` set (parse doc)"
  shows "logImplementationHandler parse now args ctx w
           = (failure (msgTaskNotFound (a_taskId args) (a_specName args)), w)
       \<and> getAllLogs (snd (logImplementationHandler parse now args ctx w)) False (a_specName args)
           = getAllLogs w False (a_specName args)"
  using assms unfolding handler_defs
  by (auto simp: list_ex_iff image_iff)

theorem C3_witness:
  "logImplementationHandler sampleParse ''t0'' (sampleArgs\<lparr>a_taskId := ''7''\<rparr>) sampleContext
     sampleWorld
     = (\<lparr>success = False, message = ''Task '' @ [CHR 0x27] @ ''7'' @ [CHR 0x27]
                                      @ '' not found in specification ''
                                      @ [CHR 0x27] @ ''auth'' @ [CHR 0x27],
         data = None\<rparr>, sampleWorld)"
  using C3_unknown_task_not_found
          [of "sampleArgs\<lparr>a_taskId := ''7''\<rparr>" sampleContext emptyArtifacts sampleWorld
              "''- [ ] 1. Add login''" sampleParse "''t0''"]
  by (simp add: sampleArgs_def sampleContext_def sampleWorld_def sampleParse_def truthy_def
      resolveProjectPath_def failure_def msgTaskNotFound_def quoted_def)

text \<open>
  C4. The handler with any log manager that appends the entry it is given, keeping the two
  file sequences, and that stores as \<open>filesChanged\<close> either the value handed over or the
  one it recomputes from the two sequences (section 4.2).  After a successful append the
  new entry is the last one of the stored collection, and its \<open>statistics.filesChanged\<close>
  is the length of the request's \<open>filesModified\<close> plus the length of its \<open>filesCreated\<close>
  (an absent sequence counting as empty).  A \<open>filesChanged\<close> that the caller put into
  \<open>statistics\<close> changes neither the response nor what is stored.  With a log manager
  that keeps the value handed over, the stored number is the one the handler derived at
  line 219.
\<close>

theorem C4_filesChanged_is_derived:
  assumes store: "\<And>w n e c w'. add w False n e = Inr (c, w') \<Longrightarrow>
            (\<exists>old. getAllLogs w False n = Inr old \<and> getAllLogs w' False n = Inr (old @ [c]))
            \<and> filesModified c = filesModified e \<and> filesCreated c = filesCreated e
            \<and> (filesChanged (statistics c) = filesChanged (statistics e)
                 \<or> filesChanged (statistics c)
                     = length (filesModified e) + length (filesCreated e))"
      and run: "logImplementationHandlerWith add stats parse now args ctx w = (r, w')"
      and ok: "success r"
  shows "\<exists>created old d.
           data r = Some d \<and> entry d = created
         \<and> getAllLogs w False (a_specName args) = Inr old
         \<and> getAllLogs w' False (a_specName args) = Inr (old @ [created])
         \<and> filesModified created = orEmpty (a_filesModified args)
         \<and> filesCreated created = orEmpty (a_filesCreated args)
         \<and> filesChanged (statistics created)
             = lengthOrZero (a_filesModified args) + lengthOrZero (a_filesCreated args)
         \<and> (\<forall>st v. a_statistics args = Some st \<longrightarrow>
               logImplementationHandlerWith add stats parse now
                 (args\<lparr>a_statistics := Some (st\<lparr>s_filesChanged := v\<rparr>)\<rparr>) ctx w = (r, w'))"
proof -
  from handlerWith_success[OF run ok] obtain arts st created ts where
    h: "a_artifacts args = Some arts" "a_statistics args = Some st"
       "add w False (a_specName args) (logEntryOf now args st arts) = Inr (created, w')"
       "r = \<lparr>success = True,
             message = ''Implementation logged for task '' @ quoted (a_taskId args),
             data = Some \<lparr>entryId = entry_id created, entry = created, taskStats = ts\<rparr>\<rparr>"
    by blast
  have given: "filesChanged (statistics (logEntryOf now args st arts))
                 = lengthOrZero (a_filesModified args) + lengthOrZero (a_filesCreated args)"
              "length (filesModified (logEntryOf now args st arts))
                 + length (filesCreated (logEntryOf now args st arts))
                 = lengthOrZero (a_filesModified args) + lengthOrZero (a_filesCreated args)"
              "filesModified (logEntryOf now args st arts) = orEmpty (a_filesModified args)"
              "filesCreated (logEntryOf now args st arts) = orEmpty (a_filesCreated args)"
    by (simp_all add: logEntryOf_def orEmpty_length)
  from store[OF h(3)] obtain old where
    old: "getAllLogs w False (a_specName args) = Inr old"
         "getAllLogs w' False (a_specName args) = Inr (old @ [created])"
    by blast
  from store[OF h(3)] given have
    c: "filesChanged (statistics created)
          = lengthOrZero (a_filesModified args) + lengthOrZero (a_filesCreated args)"
       "filesModified created = orEmpty (a_filesModified args)"
       "filesCreated created = orEmpty (a_filesCreated args)"
    by auto
  have indep: "\<forall>st v. a_statistics args = Some st \<longrightarrow>
               logImplementationHandlerWith add stats parse now
                 (args\<lparr>a_statistics := Some (st\<lparr>s_filesChanged := v\<rparr>)\<rparr>) ctx w = (r, w')"
    using handlerWith_ignores_filesChanged run by simp
  show ?thesis
    using h(4) old c indep by simp
qed

text \<open>
  Witness for C4: the caller claims 99 changed files for one modified and two created.
  The stored entry says 3 with the log manager of section 4.2, and it says 3 with the log
  manager that keeps the value it is handed.
\<close>

theorem C4_witness:
  "map_option s_filesChanged (a_statistics sampleArgs) = Some (Some 99)
   \<and> success (fst (logImplementationHandlerWith addLogEntry getTaskStats sampleParse ''t0''
                      sampleArgs sampleContext sampleWorld))
   \<and> (\<exists>d. data (fst (logImplementationHandlerWith addLogEntry getTaskStats sampleParse ''t0''
                           sampleArgs sampleContext sampleWorld)) = Some d
          \<and> filesChanged (statistics (entry d)) = 3)
   \<and> success (fst (logImplementationHandlerWith addLogEntryAsGiven getTaskStats sampleParse ''t0''
                      sampleArgs sampleContext sampleWorld))
   \<and> (\<exists>d. data (fst (logImplementationHandlerWith addLogEntryAsGiven getTaskStats sampleParse
                           ''t0'' sampleArgs sampleContext sampleWorld)) = Some d
          \<and> filesChanged (statistics (entry d)) = 3)"
proof -
  let ?h = "logImplementationHandlerWith addLogEntry getTaskStats sampleParse ''t0''
              sampleArgs sampleContext sampleWorld"
  let ?g = "logImplementationHandlerWith addLogEntryAsGiven getTaskStats sampleParse ''t0''
              sampleArgs sampleContext sampleWorld"
  have sh: "success (fst ?h)" by (simp add: log_eval)
  have sg: "success (fst ?g)" by (simp add: log_eval addLogEntryAsGiven_def)
  have ph: "?h = (fst ?h, snd ?h)" and pg: "?g = (fst ?g, snd ?g)" by simp_all
  have n: "lengthOrZero (a_filesModified sampleArgs) + lengthOrZero (a_filesCreated sampleArgs) = 3"
    by (simp add: sampleArgs_def lengthOrZero_def)
  have c: "map_option s_filesChanged (a_statistics sampleArgs) = Some (Some 99)"
    by (simp add: sampleArgs_def)
  from C4_filesChanged_is_derived[of addLogEntry, OF addLogEntry_appends ph sh] n
  have 1: "\<exists>d. data (fst ?h) = Some d \<and> filesChanged (statistics (entry d)) = 3"
    by auto
  from C4_filesChanged_is_derived[of addLogEntryAsGiven, OF addLogEntryAsGiven_appends pg sg] n
  have 2: "\<exists>d. data (fst ?g) = Some d \<and> filesChanged (statistics (entry d)) = 3"
    by auto
  from c sh sg 1 2 show ?thesis by blast
qed

text \<open>
  C5. The rows that one log entry contributes to a query.  If some artifact of the selected
  sequences matches, there is exactly one row per matching artifact, in order, each with
  that artifact in its artifact slot; if none matches but the summary does, there is
  exactly one row, whose artifact slot carries the summary text; otherwise there is no
  row.  Every row carries the entry's \<open>taskId\<close>, \<open>summary\<close>, \<open>filesModified\<close> and
  \<open>filesCreated\<close>.
\<close>

theorem C5_rows_per_entry:
  "(filter (artifactMatchesSpec t) (selectedArtifacts filt e) \<noteq> [] \<longrightarrow>
      length (matchRows spec t filt e)
        = length (filter (artifactMatchesSpec t) (selectedArtifacts filt e))
      \<and> map (\<lambda>r. art_data (m_artifact r)) (matchRows spec t filt e)
        = map JObj (filter (artifactMatchesSpec t) (selectedArtifacts filt e)))
   \<and> (filter (artifactMatchesSpec t) (selectedArtifacts filt e) = []
        \<and> ciSubstring t (summary e) \<longrightarrow>
      (\<exists>r. matchRows spec t filt e = [r]
           \<and> art_data (m_artifact r) = JObj [(''summary'', JStr (summary e))]))
   \<and> (filter (artifactMatchesSpec t) (selectedArtifacts filt e) = []
        \<and> \<not> ciSubstring t (summary e) \<longrightarrow>
      matchRows spec t filt e = [])
   \<and> (\<forall>r \<in> set (matchRows spec t filt e).
        m_taskId r = taskId e \<and> ctx_summary (m_context r) = summary e
        \<and> ctx_filesModified (m_context r) = filesModified e
        \<and> ctx_filesCreated (m_context r) = filesCreated e)"
proof -
  let ?ms = "filter (artifactMatchesSpec t) (selectedArtifacts filt e)"
  have len: "length (searchArtifacts e t filt) = length ?ms"
    using arg_cong[OF searchArtifacts_data[of e t filt], of length] by simp
  have dat: "map (\<lambda>r. art_data (m_artifact r)) (map (mkMatch spec e) (searchArtifacts e t filt))
               = map JObj ?ms"
    using searchArtifacts_data[of e t filt] by (simp add: mkMatch_def comp_def)
  have 1: "?ms \<noteq> [] \<longrightarrow> length (matchRows spec t filt e) = length ?ms
      \<and> map (\<lambda>r. art_data (m_artifact r)) (matchRows spec t filt e) = map JObj ?ms"
    using len dat by (simp add: matchRows_cases searchArtifacts_empty_iff)
  have 2: "?ms = [] \<and> ciSubstring t (summary e) \<longrightarrow>
      (\<exists>r. matchRows spec t filt e = [r]
           \<and> art_data (m_artifact r) = JObj [(''summary'', JStr (summary e))])"
    by (simp add: matchRows_cases searchArtifacts_empty_iff mkMatch_def)
  have 3: "?ms = [] \<and> \<not> ciSubstring t (summary e) \<longrightarrow> matchRows spec t filt e = []"
    by (simp add: matchRows_cases searchArtifacts_empty_iff)
  have 4: "\<forall>r \<in> set (matchRows spec t filt e).
        m_taskId r = taskId e \<and> ctx_summary (m_context r) = summary e
        \<and> ctx_filesModified (m_context r) = filesModified e
        \<and> ctx_filesCreated (m_context r) = filesCreated e"
    using matchRows_context[of _ spec t filt e] by auto
  from 1 2 3 4 show ?thesis by blast
qed

text \<open>
  Witness for C5, on the sample entry: \<open>userSERVICE\<close> matches its one class, \<open>crud\<close> only
  its summary, \<open>zzz-nonexistent\<close> nothing.
\<close>

theorem C5_witness:
  "filter (artifactMatchesSpec ''userSERVICE'') (selectedArtifacts None sampleEntry) \<noteq> []
   \<and> length (matchRows authSpec ''userSERVICE'' None sampleEntry) = 1
   \<and> filter (artifactMatchesSpec ''crud'') (selectedArtifacts None sampleEntry) = []
   \<and> ciSubstring ''crud'' (summary sampleEntry)
   \<and> (\<exists>r. matchRows authSpec ''crud'' None sampleEntry = [r]
          \<and> art_data (m_artifact r) = JObj [(''summary'', JStr ''Added user CRUD'')])
   \<and> filter (artifactMatchesSpec ''zzz-nonexistent'') (selectedArtifacts None sampleEntry) = []
   \<and> \<not> ciSubstring ''zzz-nonexistent'' (summary sampleEntry)
   \<and> matchRows authSpec ''zzz-nonexistent'' None sampleEntry = []"
proof -
  have low: "toLowerCase ''userSERVICE'' = ''userservice''" "toLowerCase ''crud'' = ''crud''"
    "toLowerCase ''zzz-nonexistent'' = ''zzz-nonexistent''"
    "toLowerCase ''Added user CRUD'' = ''added user crud''"
    "toLowerCase ''UserService'' = ''userservice''"
    "toLowerCase ''services/user.ts'' = ''services/user.ts''"
    "toLowerCase ''create'' = ''create''" "toLowerCase ''update'' = ''update''"
    by (simp_all add: toLowerCase_def lowerChar_def)
  have sel: "selectedArtifacts None sampleEntry
      = [ [(''name'', JStr ''UserService''), (''location'', JStr ''services/user.ts''),
          (''methods'', JArr [JStr ''create'', JStr ''update''])] ]"
    by (simp add: selectedArtifacts_def selectedTypes_def allTypes_def sequenceNamed_def
        present_def sampleEntry_def sampleArtifacts_def)
  have s: "summary sampleEntry = ''Added user CRUD''" by (simp add: sampleEntry_def)
  have a1: "filter (artifactMatchesSpec ''userSERVICE'') (selectedArtifacts None sampleEntry) \<noteq> []"
    unfolding sel artifactMatches_iff[symmetric] low
    by (simp add: artifactMatches_def low)
  have a2: "filter (artifactMatchesSpec ''crud'') (selectedArtifacts None sampleEntry) = []"
    unfolding sel artifactMatches_iff[symmetric] low
    by (simp add: artifactMatches_def low)
  have a3: "filter (artifactMatchesSpec ''zzz-nonexistent'') (selectedArtifacts None sampleEntry) = []"
    unfolding sel artifactMatches_iff[symmetric] low
    by (simp add: artifactMatches_def low)
  have b2: "ciSubstring ''crud'' (summary sampleEntry)"
    unfolding s includes_ciSubstring[symmetric] low by simp
  have b3: "\<not> ciSubstring ''zzz-nonexistent'' (summary sampleEntry)"
    unfolding s includes_ciSubstring[symmetric] low by simp
  note 1 = C5_rows_per_entry[of "''userSERVICE''" None sampleEntry authSpec]
  note 2 = C5_rows_per_entry[of "''crud''" None sampleEntry authSpec]
  note 3 = C5_rows_per_entry[of "''zzz-nonexistent''" None sampleEntry authSpec]
  have c1: "length (matchRows authSpec ''userSERVICE'' None sampleEntry) = 1"
    using 1 a1 by (simp add: sel artifactMatches_iff[symmetric] low artifactMatches_def)
  have c2: "\<exists>r. matchRows authSpec ''crud'' None sampleEntry = [r]
          \<and> art_data (m_artifact r) = JObj [(''summary'', JStr ''Added user CRUD'')]"
    using 2 a2 b2 s by metis
  have c3: "matchRows authSpec ''zzz-nonexistent'' None sampleEntry = []"
    using 3 a3 b3 by blast
  from a1 a2 a3 b2 b3 c1 c2 c3 show ?thesis by blast
qed

text \<open>
  C6. An entry contributes at least one row to a query exactly when the search term is a
  case-insensitive substring of its summary or of a string reached in some field of some
  artifact of a sequence selected by the type filter, where a sequence-valued field is
  searched element by element, recursively (\<open>entryMatches\<close>).
\<close>

theorem C6_matching_predicate:
  "matchRows spec t filt e \<noteq> [] \<longleftrightarrow> entryMatches t filt e"
  by (auto simp: matchRows_cases searchArtifacts_empty_iff entryMatches_def filter_empty_conv)

theorem C6_witness:
  "entryMatches ''userSERVICE'' None sampleEntry
   \<and> entryMatches ''crud'' None sampleEntry
   \<and> \<not> entryMatches ''zzz-nonexistent'' None sampleEntry"
  using C6_matching_predicate[of authSpec "''userSERVICE''" None sampleEntry]
        C6_matching_predicate[of authSpec "''crud''" None sampleEntry]
        C6_matching_predicate[of authSpec "''zzz-nonexistent''" None sampleEntry]
  unfolding sample_rows sample_rows_summary sample_rows_none
  by simp

text \<open>
  C7. A query with a search term that passes validation and a \<open>specName\<close> given (a
  non-empty name: \<^verbatim>\<open>if (specName)\<close>).  The name is looked up among the active
  specifications first: found there, the query succeeds and every row is tagged as not
  archived.  Found only among the archived ones, the query succeeds and every row is
  tagged \<open>isArchived: true\<close>.  Found in neither, the query fails with the message
  \<open>Spec not found: <specName>\<close>.
\<close>

theorem C7_spec_resolution:
  assumes "q_searchTerm args \<noteq> []" and "trim (q_searchTerm args) \<noteq> []"
      and "q_specName args = Some n" and "n \<noteq> []"
  shows "(accessible w False n \<longrightarrow>
            success (queryLogsHandler args w)
          \<and> (\<exists>resp. data (queryLogsHandler args w) = Some resp
                \<and> (\<forall>m \<in> set (matches resp). m_specName m = n \<and> \<not> m_isArchived m)))
       \<and> (\<not> accessible w False n \<and> accessible w True n \<longrightarrow>
            success (queryLogsHandler args w)
          \<and> (\<exists>resp. data (queryLogsHandler args w) = Some resp
                \<and> (\<forall>m \<in> set (matches resp). m_specName m = n \<and> m_isArchived m)))
       \<and> (\<not> accessible w False n \<and> \<not> accessible w True n \<longrightarrow>
            queryLogsHandler args w = failure (''Spec not found: '' @ n))"
proof -
  have sel: "specsToSearch args w =
     (if accessible w False n then Inr [\<lparr>name = n, isArchived = False\<rparr>]
      else if accessible w True n then Inr [\<lparr>name = n, isArchived = True\<rparr>]
      else Inl (failure (''Spec not found: '' @ n)))"
    using assms by (simp add: specsToSearch_def truthy_def)
  have rows: "\<And>a m. m \<in> set (take 100 (fst (searchSpecs w (q_searchTerm args) (q_artifactType args)
                  [\<lparr>name = n, isArchived = a\<rparr>] ([], 0))))
                \<Longrightarrow> m_specName m = n \<and> m_isArchived m = a"
    by (auto simp: searchSpecs_acc dest!: in_set_takeD specRows_origin)
  show ?thesis
    using assms rows by (auto simp: queryLogsHandler_def sel Let_def split_beta)
qed

text \<open>
  Witness for C7, on the sample project: \<open>legacy\<close> exists only in the archive and its one
  row is tagged archived; \<open>auth\<close> is active; \<open>nope\<close> is nowhere.
\<close>

theorem C7_witness:
  "(\<exists>resp. data (queryLogsHandler (sampleQuery ''userSERVICE'' (Some ''legacy'')) sampleWorld)
             = Some resp
          \<and> map m_isArchived (matches resp) = [True])
   \<and> (\<exists>resp. data (queryLogsHandler (sampleQuery ''userSERVICE'' (Some ''auth'')) sampleWorld)
             = Some resp
          \<and> map m_isArchived (matches resp) = [False])
   \<and> queryLogsHandler (sampleQuery ''userSERVICE'' (Some ''nope'')) sampleWorld
       = \<lparr>success = False, message = ''Spec not found: nope'', data = None\<rparr>"
proof -
  have v: "\<And>s. q_searchTerm (sampleQuery ''userSERVICE'' s) \<noteq> []"
          "\<And>s. trim (q_searchTerm (sampleQuery ''userSERVICE'' s)) \<noteq> []"
          "\<And>s. q_specName (sampleQuery ''userSERVICE'' s) = s"
    by (simp_all add: sampleQuery_def trim_def isWhiteSpace_def)
  have acc: "\<not> accessible sampleWorld False ''legacy''" "accessible sampleWorld True ''legacy''"
            "accessible sampleWorld False ''auth''"
            "\<not> accessible sampleWorld False ''nope''" "\<not> accessible sampleWorld True ''nope''"
    by (simp_all add: sampleWorld_def)
  have len: "\<And>s a. s \<in> {''legacy'', ''auth''} \<Longrightarrow>
               accessible sampleWorld a s \<Longrightarrow> (a \<longleftrightarrow> s = ''legacy'') \<Longrightarrow>
               \<exists>resp. data (queryLogsHandler (sampleQuery ''userSERVICE'' (Some s)) sampleWorld)
                        = Some resp \<and> length (matches resp) = 1"
    by (auto simp: query_eval sampleWorld_def searchSpecs_acc specRows_def getAllLogs_def sample_rows)
  from C7_spec_resolution[OF v(1) v(2) v(3), of "''legacy''" sampleWorld] acc len[of "''legacy''" True]
  have 1: "\<exists>resp. data (queryLogsHandler (sampleQuery ''userSERVICE'' (Some ''legacy'')) sampleWorld)
             = Some resp \<and> map m_isArchived (matches resp) = [True]"
    by (auto simp: length_Suc_conv)
  from C7_spec_resolution[OF v(1) v(2) v(3), of "''auth''" sampleWorld] acc len[of "''auth''" False]
  have 2: "\<exists>resp. data (queryLogsHandler (sampleQuery ''userSERVICE'' (Some ''auth'')) sampleWorld)
             = Some resp \<and> map m_isArchived (matches resp) = [False]"
    by (auto simp: length_Suc_conv)
  from C7_spec_resolution[OF v(1) v(2) v(3), of "''nope''" sampleWorld] acc
  have 3: "queryLogsHandler (sampleQuery ''userSERVICE'' (Some ''nope'')) sampleWorld
       = \<lparr>success = False, message = ''Spec not found: nope'', data = None\<rparr>"
    by (simp add: failure_def)
  from 1 2 3 show ?thesis by blast
qed

text \<open>
  C8. A query over all specifications (no \<open>specName\<close>) whose enumeration succeeded.  A
  specification whose log collection cannot be loaded contributes no row and no logs;
  the query succeeds all the same, and its rows and its \<open>logsSearched\<close> are those of the
  other specifications, in enumeration order.
\<close>

theorem C8_unreadable_spec_is_skipped:
  assumes "q_searchTerm args \<noteq> []" and "trim (q_searchTerm args) \<noteq> []"
      and "\<not> truthy (q_specName args)"
      and "getAllSpecNames w True = Inr (before @ spec # after)"
      and "getAllLogs w (isArchived spec) (name spec) = Inl err"
  shows "specRows w (q_searchTerm args) (q_artifactType args) spec = []
       \<and> specLogCount w spec = 0
       \<and> success (queryLogsHandler args w)
       \<and> (\<exists>resp. data (queryLogsHandler args w) = Some resp
            \<and> matches resp
                = take 100 (concat (map (specRows w (q_searchTerm args) (q_artifactType args))
                                        (before @ after)))
            \<and> logsSearched resp = sum_list (map (specLogCount w) (before @ after)))"
proof -
  have sel: "specsToSearch args w = Inr (before @ spec # after)"
    using assms by (simp add: specsToSearch_def)
  have none: "specRows w (q_searchTerm args) (q_artifactType args) spec = []"
             "specLogCount w spec = 0"
    using assms(5) by (simp_all add: specRows_def specLogCount_def)
  show ?thesis
    using assms(1,2) none by (simp add: queryLogsHandler_def sel Let_def split_beta searchSpecs_acc)
qed

text \<open>
  Witness for C8, on the sample project: \<open>broken\<close> is enumerated first and cannot be read;
  the query still succeeds and counts the two logs of \<open>auth\<close> and \<open>legacy\<close>.
\<close>

theorem C8_witness:
  "getAllLogs sampleWorld False ''broken'' = Inl ''Unexpected token''
   \<and> success (queryLogsHandler (sampleQuery ''userSERVICE'' None) sampleWorld)
   \<and> (\<exists>resp. data (queryLogsHandler (sampleQuery ''userSERVICE'' None) sampleWorld) = Some resp
          \<and> logsSearched resp = 2 \<and> map m_specName (matches resp) = [''auth'', ''legacy''])"
proof -
  let ?q = "sampleQuery ''userSERVICE'' None"
  have v: "q_searchTerm ?q \<noteq> []" "trim (q_searchTerm ?q) \<noteq> []" "\<not> truthy (q_specName ?q)"
    by (simp_all add: sampleQuery_def trim_def isWhiteSpace_def truthy_def)
  have b: "getAllLogs sampleWorld (isArchived \<lparr>name = ''broken'', isArchived = False\<rparr>)
             (name \<lparr>name = ''broken'', isArchived = False\<rparr>) = Inl ''Unexpected token''"
    by (simp add: getAllLogs_def sampleWorld_def)
  have c: "sum_list (map (specLogCount sampleWorld)
             ([] @ [\<lparr>name = ''auth'', isArchived = False\<rparr>, \<lparr>name = ''legacy'', isArchived = True\<rparr>])) = 2"
    by (simp add: specLogCount_def getAllLogs_def sampleWorld_def)
  have r: "map m_specName (take 100 (concat (map (specRows sampleWorld (q_searchTerm ?q) (q_artifactType ?q))
             ([] @ [\<lparr>name = ''auth'', isArchived = False\<rparr>, \<lparr>name = ''legacy'', isArchived = True\<rparr>]))))
           = [''auth'', ''legacy'']"
    by (simp add: specRows_def getAllLogs_def sampleWorld_def sampleQuery_def sample_rows mkMatch_def)
  from C8_unreadable_spec_is_skipped[OF v sample_specs b] b c r show ?thesis
    by auto
qed

text \<open>
  C9. When an entry matches through its summary only, its one row has the artifact type
  \<open>function\<close> and the artifact data \<open>{summary: <the entry's summary>}\<close>.  Every row made
  from the \<open>functions\<close> sequence has the type \<open>function\<close> too, and a matching function
  artifact of an entry does give such a row: the tag alone does not tell the two apart.
\<close>

theorem C9_placeholder_is_tagged_function:
  "(ciSubstring t (summary e)
      \<and> filter (artifactMatchesSpec t) (selectedArtifacts filt e) = [] \<longrightarrow>
      matchRows spec t filt e
        = [mkMatch spec e \<lparr>art_type = ''function'',
                            art_data = JObj [(''summary'', JStr (summary e))]\<rparr>])
   \<and> (\<forall>m \<in> set (searchSequence (toLowerCase t) filt ''functions'' ''function'' sq).
        art_type m = ''function'')
   \<and> (artifacts e = Some arts \<and> functions' arts = Some fs \<and> a \<in> set fs
        \<and> artifactMatchesSpec t a \<and> typeSelected filt ''functions'' \<longrightarrow>
        mkMatch spec e \<lparr>art_type = ''function'', art_data = JObj a\<rparr>
          \<in> set (matchRows spec t filt e))"
proof -
  have 1: "ciSubstring t (summary e)
      \<and> filter (artifactMatchesSpec t) (selectedArtifacts filt e) = [] \<longrightarrow>
      matchRows spec t filt e
        = [mkMatch spec e \<lparr>art_type = ''function'',
                            art_data = JObj [(''summary'', JStr (summary e))]\<rparr>]"
    by (simp add: matchRows_cases searchArtifacts_empty_iff)
  have 2: "\<forall>m \<in> set (searchSequence (toLowerCase t) filt ''functions'' ''function'' sq).
        art_type m = ''function''"
    using searchSequence_tag by blast
  have 3: "artifacts e = Some arts \<and> functions' arts = Some fs \<and> a \<in> set fs
        \<and> artifactMatchesSpec t a \<and> typeSelected filt ''functions'' \<longrightarrow>
        mkMatch spec e \<lparr>art_type = ''function'', art_data = JObj a\<rparr>
          \<in> set (matchRows spec t filt e)"
  proof (intro impI, elim conjE)
    assume h: "artifacts e = Some arts" "functions' arts = Some fs" "a \<in> set fs"
      "artifactMatchesSpec t a" "typeSelected filt ''functions''"
    then have "\<lparr>art_type = ''function'', art_data = JObj a\<rparr>
        \<in> set (searchSequence (toLowerCase t) filt ''functions'' ''function'' (functions' arts))"
      by (simp add: searchSequence_def artifactMatches_iff)
    then have "\<lparr>art_type = ''function'', art_data = JObj a\<rparr> \<in> set (searchArtifacts e t filt)"
      using h(1) by (simp add: searchArtifacts_def Let_def)
    then show "mkMatch spec e \<lparr>art_type = ''function'', art_data = JObj a\<rparr>
          \<in> set (matchRows spec t filt e)"
      by (auto simp: matchRows_cases)
  qed
  from 1 2 3 show ?thesis by blast
qed

text \<open>
  Witness for C9: \<open>crud\<close> matches the sample entry through its summary only, \<open>hash\<close>
  matches the function artifact of the other entry; both rows are tagged \<open>function\<close>.
\<close>

theorem C9_witness:
  "map (\<lambda>r. art_type (m_artifact r)) (matchRows authSpec ''crud'' None sampleEntry) = [''function'']
   \<and> map (\<lambda>r. art_data (m_artifact r)) (matchRows authSpec ''crud'' None sampleEntry)
       = [JObj [(''summary'', JStr ''Added user CRUD'')] ]
   \<and> mkMatch authSpec hashEntry \<lparr>art_type = ''function'',
                                   art_data = JObj [(''name'', JStr ''hashPassword'')]\<rparr>
       \<in> set (matchRows authSpec ''hash'' None hashEntry)"
proof -
  have sel: "selectedArtifacts None sampleEntry
      = [ [(''name'', JStr ''UserService''), (''location'', JStr ''services/user.ts''),
          (''methods'', JArr [JStr ''create'', JStr ''update''])] ]"
    by (simp add: selectedArtifacts_def selectedTypes_def allTypes_def sequenceNamed_def
        present_def sampleEntry_def sampleArtifacts_def)
  have s: "summary sampleEntry = ''Added user CRUD''" by (simp add: sampleEntry_def)
  have a: "filter (artifactMatchesSpec ''crud'') (selectedArtifacts None sampleEntry) = []"
    unfolding sel artifactMatches_iff[symmetric]
    by (simp add: artifactMatches_def toLowerCase_def lowerChar_def)
  have b: "ciSubstring ''crud'' (summary sampleEntry)"
    unfolding s includes_ciSubstring[symmetric]
    by (simp add: toLowerCase_def lowerChar_def)
  have h: "artifacts hashEntry = Some \<lparr>apiEndpoints = None, components = None,
                        functions' = Some [ [(''name'', JStr ''hashPassword'')] ],
                        classes = None, integrations = None\<rparr>"
    by (simp add: hashEntry_def)
  have m: "artifactMatchesSpec ''hash'' [(''name'', JStr ''hashPassword'')]"
    unfolding artifactMatches_iff[symmetric]
    by (simp add: artifactMatches_def toLowerCase_def lowerChar_def)
  have ts: "typeSelected None ''functions''" by (simp add: typeSelected_def truthy_def)
  from C9_placeholder_is_tagged_function[of "''crud''" sampleEntry None authSpec]
       a b s
  have 1: "matchRows authSpec ''crud'' None sampleEntry
        = [mkMatch authSpec sampleEntry \<lparr>art_type = ''function'',
                            art_data = JObj [(''summary'', JStr ''Added user CRUD'')]\<rparr>]"
    by simp
  from C9_placeholder_is_tagged_function
         [of "''hash''" hashEntry None authSpec _
             "\<lparr>apiEndpoints = None, components = None,
               functions' = Some [ [(''name'', JStr ''hashPassword'')] ],
               classes = None, integrations = None\<rparr>"
             "[ [(''name'', JStr ''hashPassword'')] ]" "[(''name'', JStr ''hashPassword'')]"]
       h m ts
  have 2: "mkMatch authSpec hashEntry \<lparr>art_type = ''function'',
                                   art_data = JObj [(''name'', JStr ''hashPassword'')]\<rparr>
       \<in> set (matchRows authSpec ''hash'' None hashEntry)"
    by simp
  from 1 2 show ?thesis by (simp add: mkMatch_def)
qed

text \<open>
  C10. A field value matches exactly when one of the strings reached from it through
  sequences alone contains the (lower-cased) term.  No string is reached from an object, so
  a nested object never matches, whatever it holds; and an artifact each of whose fields is
  a nested object, or does not match, is not a match and gives no row.
\<close>

theorem C10_nested_objects_are_not_searched:
  "(matchesSearch l v \<longleftrightarrow> (\<exists>s \<in> set (searchedStrings v). includes' (toLowerCase s) l))
   \<and> searchedStrings (JObj fs) = [] \<and> \<not> matchesSearch l (JObj fs)
   \<and> ((\<forall>f \<in> set a. (\<exists>inner. snd f = JObj inner) \<or> \<not> matchesSearch l (snd f)) \<longrightarrow>
        \<not> artifactMatches l a
        \<and> searchSequence l filt key tag (Some [a]) = [])"
proof -
  have 1: "(\<forall>f \<in> set a. (\<exists>inner. snd f = JObj inner) \<or> \<not> matchesSearch l (snd f)) \<longrightarrow>
        \<not> artifactMatches l a"
    by (fastforce simp: artifactMatches_def list_ex_iff)
  then have 2: "(\<forall>f \<in> set a. (\<exists>inner. snd f = JObj inner) \<or> \<not> matchesSearch l (snd f)) \<longrightarrow>
        searchSequence l filt key tag (Some [a]) = []"
    by (simp add: searchSequence_def)
  from 1 2 matchesSearch_strings[of l v] show ?thesis by simp
qed

text \<open>
  Witness for C10: the term occurs in the artifact only inside the nested object
  \<open>owner\<close>; the artifact does not match.
\<close>

theorem C10_witness:
  "\<not> artifactMatches ''userservice''
        [(''owner'', JObj [(''name'', JStr ''UserService'')]), (''kind'', JStr ''helper'')]
   \<and> searchSequence ''userservice'' None ''classes'' ''class''
        (Some [ [(''owner'', JObj [(''name'', JStr ''UserService'')]), (''kind'', JStr ''helper'')] ])
       = []
   \<and> matchesSearch ''userservice'' (JStr ''UserService'')"
proof -
  have k: "\<not> matchesSearch ''userservice'' (JStr ''helper'')"
    by (simp add: toLowerCase_def lowerChar_def)
  have p: "matchesSearch ''userservice'' (JStr ''UserService'')"
    by (simp add: toLowerCase_def lowerChar_def)
  from C10_nested_objects_are_not_searched
         [of "''userservice''" "JStr ''UserService''" "[]"
             "[(''owner'', JObj [(''name'', JStr ''UserService'')]), (''kind'', JStr ''helper'')]"
             None "''classes''" "''class''"] k p
  show ?thesis by simp
qed

end
